theory Spec2Isabelle
  imports Main "HOL-Library.Word" "HOL-Library.Char_ord" "HOL-Library.List_Lexorder"
begin

section \<open>Data model of \<open>tools/deletebyquery/deletebyquery.py\<close>\<close>

text \<open>
  The tool talks to three things outside itself: the Solr collection (search, delete,
  commit), the Cassandra session (prepare, concurrent execute) and the operator's terminal
  (\<open>input\<close>, the log). None of them is code of the tool, so each is a parameter: the record
  \<open>env\<close> holds what the collaborators answer, as functions of the history of effects so far
  (so the index may change between two requests), and the record \<open>world\<close> holds the history
  itself and the lines the operator is still going to type.
\<close>

type_synonym uuid = "128 word"

text \<open>A Solr document as the JSON object the client hands back: field name, field text.\<close>

type_synonym doc = "(string \<times> string) list"

text \<open>
  \<open>SearchOptions.commonparams\<close>: the request parameters the tool sets. \<open>fl\<close>, \<open>fq\<close> and
  \<open>sort\<close> collect every value given; \<open>cursorMark\<close> is removed and set again before each
  page request.
\<close>

record search_options =
  param_q :: "string list"
  param_fl :: "string list"
  param_fq :: "string list"
  param_rows :: "int option"
  param_sort :: "string list"
  param_cursorMark :: "string option"

definition SearchOptions :: search_options where
  "SearchOptions = \<lparr> param_q = [], param_fl = [], param_fq = [], param_rows = None,
     param_sort = [], param_cursorMark = None \<rparr>"

text \<open>
  \<open>solr_response.result\<close>: \<open>response.numFound\<close>, \<open>response.docs\<close> and the attribute
  \<open>nextCursorMark\<close>, which may be missing (reading it then raises \<open>AttributeError\<close>).
\<close>

record response =
  numFound :: int
  docs :: "doc list"
  nextCursorMark :: "string option"

datatype error =
    RuntimeError string
  | EOFError
  | KeyError string
  | ValueError
  | IndexError
  | DriverException string

text \<open>
  Every effect the tool has on the outside, in the order it happens. A formatted message
  is kept as its template and the value substituted for \<open>%s\<close>.
\<close>

datatype event =
    Search search_options
  | Input string int
  | Info string
  | InfoDoc doc
  | InfoIds string "uuid list"
  | Warning string string
  | Prepare string string
  | ExecuteConcurrent "uuid list"
  | Delete search_options bool
  | Commit

record world =
  trace :: "event list"
  stdin :: "string list"

text \<open>
  The module globals set by \<open>init\<close> (\<open>SOLR_UNIQUE_KEY\<close>, \<open>cassandra_table\<close>) and the
  collaborators: \<open>solr_search\<close> is \<open>solr_collection.search\<close>, \<open>execute_concurrent\<close> is
  what the row store does with the statements of one concurrent call, a pair
  \<open>(success, result)\<close> for each, \<open>sample_pick h n\<close> is the index \<open>random.sample\<close> draws
  from a population of \<open>n\<close>, \<open>UUID\<close> is \<open>uuid.UUID\<close> (\<open>None\<close> where it raises
  \<open>ValueError\<close>) and \<open>json_search_options\<close> is \<open>SearchOptions(**json.loads(s))\<close> (\<open>None\<close>
  where it raises).
\<close>

record env =
  SOLR_UNIQUE_KEY :: string
  cassandra_table :: string
  solr_search :: "event list \<Rightarrow> search_options \<Rightarrow> response"
  execute_concurrent :: "event list \<Rightarrow> uuid list \<Rightarrow> (bool \<times> string) list"
  sample_pick :: "event list \<Rightarrow> nat \<Rightarrow> nat"
  UUID :: "string \<Rightarrow> uuid option"
  json_search_options :: "string \<Rightarrow> search_options option"

record args =
  args_query :: "string option"
  args_jsonparams :: "string option"
  args_filterquery :: "string list option"
  args_rows :: int

definition emit :: "event \<Rightarrow> world \<Rightarrow> world" where
  "emit e w = w\<lparr>trace := trace w @ [e]\<rparr>"

text \<open>
  \<open>input(prompt % n)\<close>: shows the prompt and reads one line; at the end of the input it
  raises \<open>EOFError\<close>.
\<close>

definition input :: "string \<Rightarrow> int \<Rightarrow> world \<Rightarrow> (error + string) \<times> world" where
  "input prompt n w =
     (case stdin w of
        [] \<Rightarrow> (Inl EOFError, emit (Input prompt n) w)
      | l # ls \<Rightarrow> (Inr l, (emit (Input prompt n) w)\<lparr>stdin := ls\<rparr>))"

section \<open>The cursor paginator: \<open>do_solr_query\<close>\<close>

text \<open>
  Line 168, \<open>[uuid.UUID(doc['id']) for doc in docs]\<close>: \<open>doc['id']\<close> raises \<open>KeyError\<close> on a
  document without the field, \<open>uuid.UUID\<close> raises \<open>ValueError\<close> on text it cannot parse;
  the first document that raises ends the comprehension.
\<close>

fun doc_uuids :: "env \<Rightarrow> doc list \<Rightarrow> error + uuid list" where
  "doc_uuids env [] = Inr []"
| "doc_uuids env (doc # ds) =
     (case map_of doc ''id'' of
        None \<Rightarrow> Inl (KeyError ''id'')
      | Some s \<Rightarrow>
          (case UUID env s of
             None \<Rightarrow> Inl ValueError
           | Some u \<Rightarrow>
               (case doc_uuids env ds of
                  Inl e \<Rightarrow> Inl e
                | Inr us \<Rightarrow> Inr (u # us))))"

text \<open>
  The \<open>while True\<close> loop of lines 152 to 168. Its state is the query object (whose
  \<open>cursorMark\<close> it rewrites), \<open>next_cursor_mark\<close>, \<open>doc_ids\<close> and the world. Nothing bounds
  the number of pages, so the loop is a partial function: \<open>None\<close> is a run that never
  returns.
\<close>

partial_function (option) solr_loop ::
  "env \<Rightarrow> search_options \<Rightarrow> string \<Rightarrow> uuid list \<Rightarrow> world
     \<Rightarrow> ((error + uuid list) \<times> search_options \<times> world) option"
where
  "solr_loop env query next_cursor_mark doc_ids w =
     (let query1 = query\<lparr>param_cursorMark := Some next_cursor_mark\<rparr>;
          solr_response = solr_search env (trace w) query1;
          w1 = emit (Search query1) w
      in case nextCursorMark solr_response of
           None \<Rightarrow> Some (Inr [], query1, w1)
         | Some result_next_cursor_mark \<Rightarrow>
             if result_next_cursor_mark = next_cursor_mark then Some (Inr doc_ids, query1, w1)
             else
               (case doc_uuids env (docs solr_response) of
                  Inl e \<Rightarrow> Some (Inl e, query1, w1)
                | Inr ids \<Rightarrow> solr_loop env query1 result_next_cursor_mark (doc_ids @ ids) w1))"

declare solr_loop.simps [code]

definition do_solr_query ::
  "env \<Rightarrow> search_options \<Rightarrow> world \<Rightarrow> ((error + uuid list) \<times> search_options \<times> world) option"
where
  "do_solr_query env query w =
     solr_loop env (query\<lparr>param_sort := param_sort query @ [SOLR_UNIQUE_KEY env @ '' asc'']\<rparr>)
       ''*'' [] w"

section \<open>The confirmation gate: \<open>check_query\<close> and \<open>confirm_delete\<close>\<close>

text \<open>
  \<open>while do_continue not in valid: do_continue = input(prompt % n)\<close>, the loop of lines
  115 to 117 and of lines 133 to 134. Each turn reads a line, so it ends at the latest
  when the input does.
\<close>

function while_not_in ::
  "string list \<Rightarrow> string \<Rightarrow> int \<Rightarrow> string \<Rightarrow> world \<Rightarrow> (error + string) \<times> world"
where
  "while_not_in valid prompt n do_continue w =
     (if do_continue \<in> set valid then (Inr do_continue, w)
      else
        (case input prompt n w of
           (Inl e, w1) \<Rightarrow> (Inl e, w1)
         | (Inr do_continue1, w1) \<Rightarrow> while_not_in valid prompt n do_continue1 w1))"
  by pat_completeness auto
termination
  by (relation "measure (\<lambda>(valid, prompt, n, do_continue, w). length (stdin w))")
     (auto simp: input_def emit_def split: list.splits)

declare while_not_in.simps [simp del]

definition confirm_prompt :: string where
  "confirm_prompt =
     ''This action will delete %s record(s) from SOLR and Cassandra. Are you sure you want to Continue? y/n: ''"

definition confirm_delete :: "int \<Rightarrow> world \<Rightarrow> (error + bool) \<times> world" where
  "confirm_delete num_found w =
     (case input confirm_prompt num_found w of
        (Inl e, w1) \<Rightarrow> (Inl e, w1)
      | (Inr do_continue, w1) \<Rightarrow>
          (case while_not_in [''y'', ''n''] confirm_prompt num_found do_continue w1 of
             (Inl e, w2) \<Rightarrow> (Inl e, w2)
           | (Inr do_continue1, w2) \<Rightarrow> (Inr (do_continue1 = ''y''), w2)))"

text \<open>
  Lines 141 to 143, the sampling branch. \<open>sample(docs, 1)\<close> raises \<open>ValueError\<close> on an
  empty population, \<open>[SOLR_UNIQUE_KEY]\<close> raises \<open>KeyError\<close> on a document without the
  field, and \<open>docs[0]\<close> of the second response raises \<open>IndexError\<close> on an empty list.
\<close>

definition sample_query :: "env \<Rightarrow> string \<Rightarrow> search_options" where
  "sample_query env v = SearchOptions\<lparr>param_q := [SOLR_UNIQUE_KEY env @ '':'' @ v]\<rparr>"

definition sample_branch :: "env \<Rightarrow> response \<Rightarrow> world \<Rightarrow> (error + unit) \<times> world" where
  "sample_branch env solr_response w =
     (case docs solr_response of
        [] \<Rightarrow> (Inl ValueError, w)
      | d0 # ds \<Rightarrow>
          (let n = length (docs solr_response);
               picked = docs solr_response ! (sample_pick env (trace w) n mod n)
           in case map_of picked (SOLR_UNIQUE_KEY env) of
                None \<Rightarrow> (Inl (KeyError (SOLR_UNIQUE_KEY env)), w)
              | Some v \<Rightarrow>
                  (let se = sample_query env v;
                       found = solr_search env (trace w) se;
                       w1 = emit (Search se) w
                   in case docs found of
                        [] \<Rightarrow> (Inl IndexError, w1)
                      | first # rest \<Rightarrow> (Inr (), emit (InfoDoc first) w1))))"

definition check_prompt :: string where
  "check_prompt = ''Query found %s matching documents. Continue? [y]/n/(s)ample: ''"

function check_query :: "env \<Rightarrow> search_options \<Rightarrow> world \<Rightarrow> (error + bool) \<times> world" where
  "check_query env query w =
     (let solr_response = solr_search env (trace w) query;
          w1 = emit (Search query) w;
          num_found = numFound solr_response
      in if num_found = 0 then (Inr False, emit (Info ''Query returned 0 results'') w1)
         else
           (case input check_prompt num_found w1 of
              (Inl e, w2) \<Rightarrow> (Inl e, w2)
            | (Inr do_continue0, w2) \<Rightarrow>
                (case while_not_in [''y'', ''n'', ''s'', ''''] check_prompt num_found do_continue0 w2 of
                   (Inl e, w3) \<Rightarrow> (Inl e, w3)
                 | (Inr do_continue, w3) \<Rightarrow>
                     if do_continue = ''y'' \<or> do_continue = '''' then (Inr True, w3)
                     else if do_continue = ''n'' then (Inr False, w3)
                     else
                       (case sample_branch env solr_response w3 of
                          (Inl e, w4) \<Rightarrow> (Inl e, w4)
                        | (Inr u, w4) \<Rightarrow> check_query env query w4))))"
  by pat_completeness auto
termination
proof (relation "measure (\<lambda>(env, query, w). length (stdin w))", goal_cases)
  case 1
  show ?case by simp
next
  case (2 env query w solr_response w1 num_found x1 w2 do_continue0 x2 w3 do_continue x3 w4 u)
  have shrink: "length (stdin b) \<le> length (stdin a)"
    if "while_not_in valid prompt n d a = (r, b)" for valid prompt n d a r b
    using that
  proof (induction valid prompt n d a rule: while_not_in.induct)
    case (1 valid prompt n do_continue a)
    show ?case
    proof (cases "do_continue \<in> set valid")
      case True
      with "1.prems" show ?thesis by (simp add: while_not_in.simps)
    next
      case False
      show ?thesis
      proof (cases "stdin a")
        case Nil
        with False "1.prems" show ?thesis
          by (auto simp: while_not_in.simps [of valid prompt n do_continue a] input_def emit_def)
      next
        case (Cons l ls)
        let ?a1 = "(emit (Input prompt n) a)\<lparr>stdin := ls\<rparr>"
        from Cons have i: "input prompt n a = (Inr l, ?a1)" by (simp add: input_def)
        with False "1.prems" have "while_not_in valid prompt n l ?a1 = (r, b)"
          by (simp add: while_not_in.simps [of valid prompt n do_continue a])
        with "1.IH" [OF False i [symmetric] refl] have "length (stdin b) \<le> length (stdin ?a1)"
          by simp
        with Cons show ?thesis by simp
      qed
    qed
  qed
  from 2 have "length (stdin w1) = length (stdin w)" by (simp add: emit_def)
  moreover from 2 have "length (stdin w1) = Suc (length (stdin w2))"
    by (auto simp: input_def emit_def split: list.splits)
  moreover from 2 have "length (stdin w3) \<le> length (stdin w2)"
    using shrink [of "[''y'', ''n'', ''s'', '''']" check_prompt num_found do_continue0 w2 x2 w3]
    by simp
  moreover from 2 have "length (stdin w4) = length (stdin w3)"
    by (auto simp: sample_branch_def emit_def Let_def split: list.splits option.splits)
  ultimately show ?case by simp
qed

declare check_query.simps [simp del]

section \<open>The dual-store deleter: \<open>do_delete\<close>\<close>

text \<open>
  \<open>cassandra.concurrent.execute_concurrent_with_args(session, statement, parameters)\<close> as
  lines 184 and 185 call it: with no further argument, so \<open>raise_on_first_error\<close> keeps
  the driver's default \<open>True\<close>. With that default the call returns the list of
  \<open>(success, result)\<close> pairs only when every statement succeeded; otherwise it raises the
  exception of the first statement that failed. \<open>DriverException result\<close> is that
  exception.
\<close>

definition execute_concurrent_with_args ::
  "env \<Rightarrow> event list \<Rightarrow> uuid list \<Rightarrow> error + (bool \<times> string) list"
where
  "execute_concurrent_with_args env h doc_ids =
     (let results = execute_concurrent env h doc_ids
      in case filter (\<lambda>(success, result). \<not> success) results of
           [] \<Rightarrow> Inr results
         | (success, result) # others \<Rightarrow> Inl (DriverException result))"

definition delete_from_cassandra :: "env \<Rightarrow> uuid list \<Rightarrow> world \<Rightarrow> (error + unit) \<times> world" where
  "delete_from_cassandra env doc_ids w =
     (let w1 = emit (Prepare ''DELETE FROM %s WHERE tile_id=?'' (cassandra_table env)) w;
          w2 = emit (ExecuteConcurrent doc_ids) w1
      in case execute_concurrent_with_args env (trace w1) doc_ids of
           Inl e \<Rightarrow> (Inl e, w2)
         | Inr results \<Rightarrow>
             (Inr (),
              foldl (\<lambda>w3 (success, result).
                       if \<not> success
                       then emit (Warning ''Could not delete tile %s'' result) w3 else w3)
                w2 results))"

definition delete_from_solr :: "search_options \<Rightarrow> world \<Rightarrow> world" where
  "delete_from_solr query w = emit Commit (emit (Delete query False) w)"

definition do_delete ::
  "env \<Rightarrow> uuid list \<Rightarrow> search_options \<Rightarrow> world \<Rightarrow> (error + uuid list) \<times> world"
where
  "do_delete env doc_ids query w =
     (let w1 = emit (Info ''Executing Cassandra delete...'') w
      in case delete_from_cassandra env doc_ids w1 of
           (Inl e, w2) \<Rightarrow> (Inl e, w2)
         | (Inr u, w2) \<Rightarrow>
             (let w3 = emit (Info ''Executing Solr delete...'') w2;
                  w4 = delete_from_solr query w3
              in (Inr doc_ids, w4)))"

section \<open>The coordinator: \<open>delete_by_query\<close>\<close>

text \<open>
  Lines 76 to 94, the construction of the query. \<open>if args.query\<close> and
  \<open>elif args.jsonparams\<close> test truthiness: an absent argument and the empty string both
  fail the test.
\<close>

definition truthy :: "string option \<Rightarrow> bool" where
  "truthy a = (case a of None \<Rightarrow> False | Some s \<Rightarrow> s \<noteq> [])"

definition build_query :: "env \<Rightarrow> args \<Rightarrow> error + search_options" where
  "build_query env args =
     (if truthy (args_query args) then
        (let se = SearchOptions\<lparr>param_q := [the (args_query args)],
                    param_fl := [SOLR_UNIQUE_KEY env, ''id'']\<rparr>;
             se1 = se\<lparr>param_fq :=
                      (case args_filterquery args of None \<Rightarrow> [] | Some fqs \<Rightarrow> fqs)\<rparr>
         in Inr (se1\<lparr>param_rows := Some (args_rows args)\<rparr>))
      else if truthy (args_jsonparams args) then
        (case json_search_options env (the (args_jsonparams args)) of
           None \<Rightarrow> Inl ValueError
         | Some se \<Rightarrow>
             Inr (se\<lparr>param_fl := param_fl se @ [SOLR_UNIQUE_KEY env, ''id''],
                      param_rows := Some (args_rows args)\<rparr>))
      else Inl (RuntimeError ''either query or jsonparams is required''))"

text \<open>
  Lines 96 to 108. The query object handed to \<open>do_delete\<close> is the one \<open>do_solr_query\<close> has
  worked on, so it carries the sort and the last cursor mark.
\<close>

definition delete_by_query :: "env \<Rightarrow> args \<Rightarrow> world \<Rightarrow> ((error + unit) \<times> world) option" where
  "delete_by_query env args w =
     (case build_query env args of
        Inl e \<Rightarrow> Some (Inl e, w)
      | Inr query \<Rightarrow>
          (case check_query env query w of
             (Inl e, w1) \<Rightarrow> Some (Inl e, w1)
           | (Inr False, w1) \<Rightarrow> Some (Inr (), emit (Info ''Exiting'') w1)
           | (Inr True, w1) \<Rightarrow>
               (case do_solr_query env query (emit (Info ''Collecting tiles ....'') w1) of
                  None \<Rightarrow> None
                | Some (Inl e, query1, w2) \<Rightarrow> Some (Inl e, w2)
                | Some (Inr solr_docs, query1, w2) \<Rightarrow>
                    (case confirm_delete (int (length solr_docs)) w2 of
                       (Inl e, w3) \<Rightarrow> Some (Inl e, w3)
                     | (Inr False, w3) \<Rightarrow> Some (Inr (), emit (Info ''Exiting'') w3)
                     | (Inr True, w3) \<Rightarrow>
                         (case do_delete env solr_docs query1 w3 of
                            (Inl e, w4) \<Rightarrow> Some (Inl e, w4)
                          | (Inr deleted_ids, w4) \<Rightarrow>
                              Some (Inr (), emit (InfoIds ''Deleted tile IDs %s'' deleted_ids) w4))))))"

section \<open>Describing a pagination run\<close>

text \<open>
  \<open>fetches env query mark w pages\<close> reads a run of the loop from the outside: started in
  the state \<open>(query, mark, w)\<close>, the index answers the next \<open>length pages\<close> requests
  with exactly \<open>pages\<close>, each carrying a cursor mark different from the one sent. The value
  is the state the loop is in after them.
\<close>

fun fetches ::
  "env \<Rightarrow> search_options \<Rightarrow> string \<Rightarrow> world \<Rightarrow> response list
     \<Rightarrow> (search_options \<times> string \<times> world) option"
where
  "fetches env query mark w [] = Some (query, mark, w)"
| "fetches env query mark w (r # rs) =
     (let query1 = query\<lparr>param_cursorMark := Some mark\<rparr>
      in if solr_search env (trace w) query1 = r then
           (case nextCursorMark r of
              None \<Rightarrow> None
            | Some mark1 \<Rightarrow>
                if mark1 = mark then None
                else fetches env query1 mark1 (emit (Search query1) w) rs)
         else None)"

text \<open>A document line 168 cannot turn into a record ID.\<close>

definition malformed :: "env \<Rightarrow> doc \<Rightarrow> bool" where
  "malformed env d =
     (case map_of d ''id'' of None \<Rightarrow> True | Some s \<Rightarrow> UUID env s = None)"

definition record_id :: "env \<Rightarrow> doc \<Rightarrow> uuid" where
  "record_id env d = the (UUID env (the (map_of d ''id'')))"

text \<open>The record IDs line 168 reads from a list of pages, page after page.\<close>

definition page_ids :: "env \<Rightarrow> response list \<Rightarrow> uuid list" where
  "page_ids env pages = concat (map (\<lambda>r. map (record_id env) (docs r)) pages)"

text \<open>
  The warnings \<open>delete_from_cassandra\<close> logs for a list of \<open>(success, result)\<close> pairs: one
  for every pair that reports failure, in the order of the list.
\<close>

definition warnings :: "(bool \<times> string) list \<Rightarrow> event list" where
  "warnings results =
     map (\<lambda>(success, result). Warning ''Could not delete tile %s'' result)
       (filter (\<lambda>(success, result). \<not> success) results)"

section \<open>An index with a stable result set\<close>

text \<open>
  The index is not part of the tool. This is the cursor contract the paginator relies on
  (deep paging of Solr), over a result set \<open>ds\<close> that does not change: a request with a
  cursor mark must sort by the unique key alone, otherwise the index answers with an
  error that carries no next mark; the page holds the next \<open>rows\<close> documents after the
  mark in ascending order of the key; the next mark names the last document of the page,
  and is the mark sent when the page is empty.
\<close>

definition field :: "string \<Rightarrow> doc \<Rightarrow> string" where
  "field k d = (case map_of d k of None \<Rightarrow> [] | Some v \<Rightarrow> v)"

definition cursor_token :: "string \<Rightarrow> string" where
  "cursor_token v = ''AoE'' @ v"

definition after_cursor :: "string \<Rightarrow> string \<Rightarrow> doc list \<Rightarrow> doc list" where
  "after_cursor key c ds =
     (if c = ''*'' then ds else filter (\<lambda>d. drop 3 c < field key d) ds)"

definition stable_index :: "string \<Rightarrow> doc list \<Rightarrow> search_options \<Rightarrow> response" where
  "stable_index key ds query =
     (let rows = nat (case param_rows query of None \<Rightarrow> 10 | Some r \<Rightarrow> r)
      in case param_cursorMark query of
           None \<Rightarrow>
             \<lparr>numFound = int (length ds), docs = take rows ds, nextCursorMark = None\<rparr>
         | Some c \<Rightarrow>
             if param_sort query = [key @ '' asc''] then
               (let page = take rows (after_cursor key c (sort_key (field key) ds))
                in \<lparr>numFound = int (length ds), docs = page,
                     nextCursorMark =
                       Some (if page = [] then c else cursor_token (field key (last page)))\<rparr>)
             else \<lparr>numFound = 0, docs = [], nextCursorMark = None\<rparr>)"

text \<open>
  The cursor mark the stable index hands out for a position in its sorted result set:
  \<open>*\<close> before the first document, the token of the \<open>k\<close>-th document after \<open>k\<close> of them.
\<close>

definition position_mark :: "string \<Rightarrow> doc list \<Rightarrow> nat \<Rightarrow> string" where
  "position_mark key ss k =
     (if k = 0 then ''*'' else cursor_token (field key (ss ! (k - 1))))"

section \<open>Concrete collaborators\<close>

text \<open>
  Instances of the parameters, for running the definitions on concrete inputs:
  \<open>hex_UUID\<close> reads the 32 hexadecimal digits of a UUID written with or without hyphens,
  \<open>scripted\<close> is an index that answers its \<open>k\<close>-th search with the \<open>k\<close>-th response of a
  list (and with an empty response carrying no cursor mark after the list), whatever is
  asked.
\<close>

definition hex_digit :: "char \<Rightarrow> nat option" where
  "hex_digit c =
     (if c \<in> set ''0123456789'' then Some (of_char c - 48)
      else if c \<in> set ''abcdef'' then Some (of_char c - 87)
      else if c \<in> set ''ABCDEF'' then Some (of_char c - 55)
      else None)"

fun hex_value :: "nat \<Rightarrow> string \<Rightarrow> nat option" where
  "hex_value acc [] = Some acc"
| "hex_value acc (c # cs) =
     (case hex_digit c of None \<Rightarrow> None | Some v \<Rightarrow> hex_value (16 * acc + v) cs)"

definition hex_UUID :: "string \<Rightarrow> uuid option" where
  "hex_UUID s =
     (let h = filter (\<lambda>c. c \<noteq> CHR ''-'') s
      in if length h = 32 then map_option of_nat (hex_value 0 h) else None)"

definition searches :: "event list \<Rightarrow> nat" where
  "searches h = length (filter (\<lambda>e. case e of Search query \<Rightarrow> True | _ \<Rightarrow> False) h)"

definition no_response :: response where
  "no_response = \<lparr>numFound = 0, docs = [], nextCursorMark = None\<rparr>"

definition scripted :: "response list \<Rightarrow> event list \<Rightarrow> search_options \<Rightarrow> response" where
  "scripted rs h query = (if searches h < length rs then rs ! searches h else no_response)"

definition tile_env ::
  "(event list \<Rightarrow> search_options \<Rightarrow> response) \<Rightarrow> (bool \<times> string) list \<Rightarrow> env"
where
  "tile_env search results =
     \<lparr>SOLR_UNIQUE_KEY = ''id'', cassandra_table = ''sea_surface_temp'',
      solr_search = search, execute_concurrent = (\<lambda>h ids. results),
      sample_pick = (\<lambda>h n. 0), UUID = hex_UUID, json_search_options = (\<lambda>s. None)\<rparr>"

definition tile_a :: doc where
  "tile_a = [(''id'', ''0a0a0a0a-0000-4000-8000-00000000000a'')]"

definition tile_b :: doc where
  "tile_b = [(''id'', ''0b0b0b0b-0000-4000-8000-00000000000b'')]"

definition tile_c :: doc where
  "tile_c = [(''id'', ''0c0c0c0c-0000-4000-8000-00000000000c'')]"

definition star_args :: args where
  "star_args = \<lparr>args_query = Some ''*:*'', args_jsonparams = None,
     args_filterquery = None, args_rows = 2\<rparr>"

definition star_query :: search_options where
  "star_query = \<lparr>param_q = [''*:*''], param_fl = [''id'', ''id''], param_fq = [],
     param_rows = Some 2, param_sort = [], param_cursorMark = None\<rparr>"

definition operator :: "string list \<Rightarrow> world" where
  "operator lines = \<lparr>trace = [], stdin = lines\<rparr>"

text \<open>
  The answer of an index whose result set is empty to the first page request: no
  document, and the mark \<open>*\<close> it was sent. With it, the query that request carries.
\<close>

definition sentinel_reply :: response where
  "sentinel_reply = \<lparr>numFound = 0, docs = [], nextCursorMark = Some ''*''\<rparr>"

definition first_page_query :: search_options where
  "first_page_query = star_query\<lparr>param_sort := [''id asc''], param_cursorMark := Some ''*''\<rparr>"

text \<open>
  Responses for the runs below: a count response that reports one match and carries no
  cursor mark, and one that reports a match but holds no document (a request with
  \<open>rows = 0\<close>).
\<close>

definition one_hit :: response where
  "one_hit = \<lparr>numFound = 1, docs = [tile_a], nextCursorMark = None\<rparr>"

definition count_only :: response where
  "count_only = \<lparr>numFound = 1, docs = [], nextCursorMark = None\<rparr>"

text \<open>
  An index holding one tile: its answers to the count request, to the first page request
  and to the page request after it, which carries the mark it was sent.
\<close>

definition one_tile_index :: "response list" where
  "one_tile_index =
     [\<lparr>numFound = 1, docs = [tile_a], nextCursorMark = None\<rparr>,
      \<lparr>numFound = 1, docs = [tile_a], nextCursorMark = Some ''AoEa''\<rparr>,
      \<lparr>numFound = 1, docs = [], nextCursorMark = Some ''AoEa''\<rparr>]"

text \<open>
  Two more scripted indexes. The first answers the second page request with the mark it
  was sent and, all the same, with a document. The second serves a page whose second
  document has an \<open>id\<close> that is no UUID.
\<close>

definition page_a :: response where
  "page_a = \<lparr>numFound = 2, docs = [tile_a], nextCursorMark = Some ''AoEa''\<rparr>"

definition terminal_b :: response where
  "terminal_b = \<lparr>numFound = 2, docs = [tile_b], nextCursorMark = Some ''AoEa''\<rparr>"

definition broken_tile :: doc where
  "broken_tile = [(''id'', ''not-a-uuid'')]"

definition page_broken :: response where
  "page_broken = \<lparr>numFound = 2, docs = [tile_a, broken_tile], nextCursorMark = Some ''AoEb''\<rparr>"

text \<open>A result set of three tiles, stored out of order.\<close>

definition three_tiles :: "doc list" where
  "three_tiles = [tile_c, tile_a, tile_b]"

definition three_tiles_env :: env where
  "three_tiles_env = tile_env (\<lambda>h. stable_index ''id'' three_tiles) []"

section \<open>Basic facts\<close>

lemma trace_emit [simp]: "trace (emit e w) = trace w @ [e]"
  by (simp add: emit_def)

lemma stdin_emit [simp]: "stdin (emit e w) = stdin w"
  by (simp add: emit_def)

lemma foldl_warnings:
  "foldl (\<lambda>w3 (success, result).
            if \<not> success then emit (Warning ''Could not delete tile %s'' result) w3 else w3)
     w results = w\<lparr>trace := trace w @ warnings results\<rparr>"
proof (induction results arbitrary: w)
  case Nil
  show ?case by (simp add: warnings_def)
next
  case (Cons r rs)
  obtain success result where r: "r = (success, result)" by (cases r)
  show ?case
    by (cases success) (simp_all add: r Cons.IH warnings_def emit_def)
qed

lemma delete_from_cassandra_trace:
  "delete_from_cassandra env doc_ids w =
     (case execute_concurrent_with_args env
        (trace w @ [Prepare ''DELETE FROM %s WHERE tile_id=?'' (cassandra_table env)]) doc_ids of
        Inl e \<Rightarrow>
          (Inl e,
           w\<lparr>trace := trace w @
              [Prepare ''DELETE FROM %s WHERE tile_id=?'' (cassandra_table env),
               ExecuteConcurrent doc_ids]\<rparr>)
      | Inr results \<Rightarrow>
          (Inr (),
           w\<lparr>trace := trace w @
              [Prepare ''DELETE FROM %s WHERE tile_id=?'' (cassandra_table env),
               ExecuteConcurrent doc_ids] @ warnings results\<rparr>))"
  by (simp add: delete_from_cassandra_def Let_def foldl_warnings emit_def split: sum.splits)

lemma do_delete_trace:
  "do_delete env doc_ids query w =
     (case execute_concurrent_with_args env
        (trace w @ [Info ''Executing Cassandra delete...'',
           Prepare ''DELETE FROM %s WHERE tile_id=?'' (cassandra_table env)]) doc_ids of
        Inl e \<Rightarrow>
          (Inl e,
           w\<lparr>trace := trace w @
              [Info ''Executing Cassandra delete...'',
               Prepare ''DELETE FROM %s WHERE tile_id=?'' (cassandra_table env),
               ExecuteConcurrent doc_ids]\<rparr>)
      | Inr results \<Rightarrow>
          (Inr doc_ids,
           w\<lparr>trace := trace w @
              [Info ''Executing Cassandra delete...'',
               Prepare ''DELETE FROM %s WHERE tile_id=?'' (cassandra_table env),
               ExecuteConcurrent doc_ids] @ warnings results @
              [Info ''Executing Solr delete...'', Delete query False, Commit]\<rparr>))"
  by (simp add: do_delete_def Let_def delete_from_cassandra_trace delete_from_solr_def emit_def
      split: sum.splits)

lemma build_star_query:
  "build_query (tile_env search results) star_args = Inr star_query"
  by (simp add: build_query_def tile_env_def star_args_def star_query_def truthy_def
      SearchOptions_def)

subsection \<open>Prompts and the lines the operator types\<close>

lemma input_Cons:
  "stdin w = l # ls \<Longrightarrow>
     input prompt n w = (Inr l, w\<lparr>trace := trace w @ [Input prompt n], stdin := ls\<rparr>)"
  by (simp add: input_def emit_def)

lemma input_Nil:
  "stdin w = [] \<Longrightarrow> input prompt n w = (Inl EOFError, w\<lparr>trace := trace w @ [Input prompt n]\<rparr>)"
  by (simp add: input_def emit_def)

lemma while_not_in_valid:
  "d \<in> set valid \<Longrightarrow> while_not_in valid prompt n d w = (Inr d, w)"
  by (simp add: while_not_in.simps)

lemma while_not_in_rejected:
  assumes "d \<notin> set valid" "\<forall>x\<in>set rejected. x \<notin> set valid" "l \<in> set valid"
    and "stdin w = rejected @ l # rest"
  shows "while_not_in valid prompt n d w =
           (Inr l, w\<lparr>trace := trace w @ replicate (Suc (length rejected)) (Input prompt n),
                      stdin := rest\<rparr>)"
  using assms
proof (induction rejected arbitrary: d w)
  case Nil
  then show ?case
    by (simp add: while_not_in.simps [of valid prompt n d w] input_Cons while_not_in_valid)
next
  case (Cons x xs)
  let ?w1 = "w\<lparr>trace := trace w @ [Input prompt n], stdin := xs @ l # rest\<rparr>"
  from Cons.prems have "while_not_in valid prompt n d w = while_not_in valid prompt n x ?w1"
    by (simp add: while_not_in.simps [of valid prompt n d w] input_Cons)
  also from Cons.prems have "\<dots> =
      (Inr l, ?w1\<lparr>trace := trace ?w1 @ replicate (Suc (length xs)) (Input prompt n),
                  stdin := rest\<rparr>)"
    by (intro Cons.IH) simp_all
  finally show ?case by (simp add: replicate_append_same)
qed

lemma prompt_until_valid:
  assumes "\<forall>x\<in>set rejected. x \<notin> set valid" "l \<in> set valid"
    and "stdin w = rejected @ l # rest"
  shows "(case input prompt n w of
            (Inl e, w1) \<Rightarrow> (Inl e, w1)
          | (Inr d, w1) \<Rightarrow> while_not_in valid prompt n d w1) =
           (Inr l, w\<lparr>trace := trace w @ replicate (Suc (length rejected)) (Input prompt n),
                      stdin := rest\<rparr>)"
proof (cases rejected)
  case Nil
  with assms show ?thesis by (simp add: input_Cons while_not_in_valid)
next
  case (Cons x xs)
  let ?w1 = "w\<lparr>trace := trace w @ [Input prompt n], stdin := xs @ l # rest\<rparr>"
  from Cons assms have "while_not_in valid prompt n x ?w1 =
      (Inr l, ?w1\<lparr>trace := trace ?w1 @ replicate (Suc (length xs)) (Input prompt n),
                  stdin := rest\<rparr>)"
    by (intro while_not_in_rejected) simp_all
  with Cons assms show ?thesis by (simp add: input_Cons replicate_append_same)
qed

lemma while_not_in_result:
  "while_not_in valid prompt n d w = (Inr c, w1) \<Longrightarrow>
     c \<in> set valid \<and>
     (\<exists>rejected. d # stdin w = rejected @ c # stdin w1 \<and>
        (\<forall>x\<in>set rejected. x \<notin> set valid) \<and>
        trace w1 = trace w @ replicate (length rejected) (Input prompt n))"
proof (induction valid prompt n d w rule: while_not_in.induct)
  case (1 valid prompt n d w)
  show ?case
  proof (cases "d \<in> set valid")
    case True
    with "1.prems" have "c = d" "w1 = w" by (simp_all add: while_not_in_valid)
    with True show ?thesis by (intro conjI exI [of _ "[]"]) simp_all
  next
    case False
    show ?thesis
    proof (cases "stdin w")
      case Nil
      with False "1.prems" show ?thesis
        by (simp add: while_not_in.simps [of valid prompt n d w] input_Nil)
    next
      case (Cons l ls)
      let ?w0 = "w\<lparr>trace := trace w @ [Input prompt n], stdin := ls\<rparr>"
      from Cons have i: "input prompt n w = (Inr l, ?w0)" by (simp add: input_Cons)
      with False "1.prems" have r: "while_not_in valid prompt n l ?w0 = (Inr c, w1)"
        by (simp add: while_not_in.simps [of valid prompt n d w])
      from "1.IH" [OF False i [symmetric] refl r] obtain rejected where
        c: "c \<in> set valid" and s: "l # ls = rejected @ c # stdin w1"
        and v: "\<forall>x\<in>set rejected. x \<notin> set valid"
        and t: "trace w1 = (trace w @ [Input prompt n]) @ replicate (length rejected) (Input prompt n)"
        by auto
      from s Cons have "d # stdin w = (d # rejected) @ c # stdin w1" by simp
      moreover from v False have "\<forall>x\<in>set (d # rejected). x \<notin> set valid" by simp
      moreover from t have "trace w1 = trace w @ replicate (length (d # rejected)) (Input prompt n)"
        by (simp add: replicate_append_same)
      ultimately show ?thesis using c by blast
    qed
  qed
qed

lemma check_query_first_valid:
  assumes nf: "numFound (solr_search env (trace w) query) \<noteq> 0"
    and rej: "\<forall>x\<in>set rejected. x \<notin> set [''y'', ''n'', ''s'', '''']"
    and val: "l \<in> set [''y'', ''n'', ''s'', '''']"
    and inp: "stdin w = rejected @ l # rest"
  shows "check_query env query w =
     (let solr_response = solr_search env (trace w) query;
          w3 = w\<lparr>trace := trace w @ Search query #
                  replicate (Suc (length rejected)) (Input check_prompt (numFound solr_response)),
                stdin := rest\<rparr>
      in if l = ''y'' \<or> l = '''' then (Inr True, w3)
         else if l = ''n'' then (Inr False, w3)
         else
           (case sample_branch env solr_response w3 of
              (Inl e, w4) \<Rightarrow> (Inl e, w4)
            | (Inr u, w4) \<Rightarrow> check_query env query w4))"
proof -
  let ?n = "numFound (solr_search env (trace w) query)"
  let ?w1 = "emit (Search query) w"
  let ?w3 = "w\<lparr>trace := trace w @ Search query # replicate (Suc (length rejected)) (Input check_prompt ?n),
                stdin := rest\<rparr>"
  from inp have "stdin ?w1 = rejected @ l # rest" by simp
  from prompt_until_valid [OF rej val this, of check_prompt ?n]
  have p: "(case input check_prompt ?n ?w1 of
              (Inl e, w1) \<Rightarrow> (Inl e, w1)
            | (Inr d, w1) \<Rightarrow> while_not_in [''y'', ''n'', ''s'', ''''] check_prompt ?n d w1) =
           (Inr l, ?w3)"
    by (simp add: emit_def)
  obtain r0 w2 where i: "input check_prompt ?n ?w1 = (r0, w2)"
    by (cases "input check_prompt ?n ?w1")
  from inp i obtain d where r0: "r0 = Inr d"
    by (cases rejected) (auto simp: input_def split: list.splits)
  from p i r0 have "while_not_in [''y'', ''n'', ''s'', ''''] check_prompt ?n d w2 = (Inr l, ?w3)"
    by simp
  with nf i r0 show ?thesis
    by (simp add: check_query.simps [of env query w] Let_def)
qed

lemma check_query_True_last_input:
  "check_query env query w = (Inr True, w1) \<Longrightarrow>
     \<exists>consumed l. stdin w = consumed @ l # stdin w1 \<and> (l = ''y'' \<or> l = '''')"
proof (induction "length (stdin w)" arbitrary: w rule: less_induct)
  case less
  let ?resp = "solr_search env (trace w) query"
  let ?n = "numFound ?resp"
  let ?w1 = "emit (Search query) w"
  from less.prems have nf: "?n \<noteq> 0"
    by (auto simp: check_query.simps [of env query w] Let_def)
  obtain r0 w2 where i: "input check_prompt ?n ?w1 = (r0, w2)"
    by (cases "input check_prompt ?n ?w1")
  from less.prems nf i obtain d0 where r0: "r0 = Inr d0"
    by (cases r0) (auto simp: check_query.simps [of env query w] Let_def)
  from i r0 have s2: "stdin w = d0 # stdin w2"
    by (auto simp: input_def split: list.splits)
  obtain r w3 where wl: "while_not_in [''y'', ''n'', ''s'', ''''] check_prompt ?n d0 w2 = (r, w3)"
    by (cases "while_not_in [''y'', ''n'', ''s'', ''''] check_prompt ?n d0 w2")
  from less.prems nf i r0 wl obtain d where r: "r = Inr d"
    by (cases r) (auto simp: check_query.simps [of env query w] Let_def)
  from while_not_in_result [OF wl [unfolded r]] obtain rejected where
    dv: "d \<in> set [''y'', ''n'', ''s'', '''']" and s3: "d0 # stdin w2 = rejected @ d # stdin w3"
    by blast
  show ?case
  proof (cases "d = ''y'' \<or> d = ''''")
    case True
    with less.prems nf i r0 wl r have "w1 = w3"
      by (auto simp: check_query.simps [of env query w] Let_def)
    with s2 s3 True show ?thesis by auto
  next
    case False
    with less.prems nf i r0 wl r have dn: "d \<noteq> ''n''"
      by (auto simp: check_query.simps [of env query w] Let_def)
    obtain rs w4 where sb: "sample_branch env ?resp w3 = (rs, w4)"
      by (cases "sample_branch env ?resp w3")
    from less.prems nf i r0 wl r False dn sb have rec: "check_query env query w4 = (Inr True, w1)"
      by (cases rs) (auto simp: check_query.simps [of env query w] Let_def)
    from sb have s4: "stdin w4 = stdin w3"
      by (auto simp: sample_branch_def Let_def split: list.splits option.splits)
    from s3 have "length (d0 # stdin w2) = length (rejected @ d # stdin w3)" by simp
    with s2 s4 have "length (stdin w4) < length (stdin w)" by simp
    from less.hyps [OF this rec] obtain consumed l where
      "stdin w4 = consumed @ l # stdin w1" "l = ''y'' \<or> l = ''''" by blast
    with s2 s3 s4 have "stdin w = (rejected @ d # consumed) @ l # stdin w1" by simp
    with \<open>l = ''y'' \<or> l = ''''\<close> show ?thesis by blast
  qed
qed

lemma confirm_delete_first_valid:
  assumes rej: "\<forall>x\<in>set rejected. x \<notin> set [''y'', ''n'']"
    and val: "l \<in> set [''y'', ''n'']"
    and inp: "stdin w = rejected @ l # rest"
  shows "confirm_delete n w =
           (Inr (l = ''y''),
            w\<lparr>trace := trace w @ replicate (Suc (length rejected)) (Input confirm_prompt n),
               stdin := rest\<rparr>)"
proof -
  let ?w3 = "w\<lparr>trace := trace w @ replicate (Suc (length rejected)) (Input confirm_prompt n),
               stdin := rest\<rparr>"
  from prompt_until_valid [OF rej val inp, of confirm_prompt n]
  have p: "(case input confirm_prompt n w of
              (Inl e, w1) \<Rightarrow> (Inl e, w1)
            | (Inr d, w1) \<Rightarrow> while_not_in [''y'', ''n''] confirm_prompt n d w1) = (Inr l, ?w3)" .
  obtain r0 w2 where i: "input confirm_prompt n w = (r0, w2)"
    by (cases "input confirm_prompt n w")
  from inp i obtain d where r0: "r0 = Inr d"
    by (cases rejected) (auto simp: input_def split: list.splits)
  from p i r0 have "while_not_in [''y'', ''n''] confirm_prompt n d w2 = (Inr l, ?w3)"
    by simp
  with i r0 show ?thesis
    by (simp add: confirm_delete_def)
qed

subsection \<open>Pages and the loop\<close>

lemma doc_uuids_Inr:
  "(\<forall>d\<in>set ds. \<not> malformed env d) \<Longrightarrow> doc_uuids env ds = Inr (map (record_id env) ds)"
  by (induction ds) (auto simp: malformed_def record_id_def split: option.splits)

lemma doc_uuids_Inl:
  "d \<in> set ds \<Longrightarrow> malformed env d \<Longrightarrow>
     doc_uuids env ds = Inl (KeyError ''id'') \<or> doc_uuids env ds = Inl ValueError"
  by (induction ds) (auto simp: malformed_def split: option.splits sum.splits)

lemma doc_uuids_result:
  "doc_uuids env ds = Inr ids \<Longrightarrow>
     (\<forall>d\<in>set ds. \<not> malformed env d) \<and> ids = map (record_id env) ds"
  by (induction ds arbitrary: ids)
     (auto simp: malformed_def record_id_def split: option.splits sum.splits)

lemma solr_loop_same:
  "nextCursorMark (solr_search env (trace w) (query\<lparr>param_cursorMark := Some mark\<rparr>)) = Some mark \<Longrightarrow>
     solr_loop env query mark doc_ids w =
       Some (Inr doc_ids, query\<lparr>param_cursorMark := Some mark\<rparr>,
             emit (Search (query\<lparr>param_cursorMark := Some mark\<rparr>)) w)"
  by (simp add: solr_loop.simps [of env query mark doc_ids w] Let_def)

lemma solr_loop_fetches:
  assumes "fetches env query mark w pages = Some (query1, mark1, w1)"
    and "\<forall>r\<in>set pages. \<forall>d\<in>set (docs r). \<not> malformed env d"
  shows "solr_loop env query mark doc_ids w =
           solr_loop env query1 mark1 (doc_ids @ page_ids env pages) w1"
  using assms
proof (induction pages arbitrary: query mark w doc_ids)
  case Nil
  then show ?case by (simp add: page_ids_def)
next
  case (Cons r rs)
  let ?q = "query\<lparr>param_cursorMark := Some mark\<rparr>"
  from Cons.prems(1) have r: "solr_search env (trace w) ?q = r"
    by (auto simp: Let_def split: if_splits)
  from Cons.prems(1) r obtain m where m: "nextCursorMark r = Some m" "m \<noteq> mark"
    and f: "fetches env ?q m (emit (Search ?q) w) rs = Some (query1, mark1, w1)"
    by (auto simp: Let_def split: if_splits option.splits)
  from Cons.prems(2) have ids: "doc_uuids env (docs r) = Inr (map (record_id env) (docs r))"
    by (intro doc_uuids_Inr) simp
  from r m ids have "solr_loop env query mark doc_ids w =
      solr_loop env ?q m (doc_ids @ map (record_id env) (docs r)) (emit (Search ?q) w)"
    by (simp add: solr_loop.simps [of env query mark doc_ids w] Let_def)
  also from Cons.prems(2) have "\<dots> =
      solr_loop env query1 mark1
        ((doc_ids @ map (record_id env) (docs r)) @ page_ids env rs) w1"
    by (intro Cons.IH [OF f]) simp
  finally show ?case by (simp add: page_ids_def)
qed

lemma solr_loop_malformed:
  assumes "fetches env query mark w pages = Some (query1, mark1, w1)"
    and "r \<in> set pages" "d \<in> set (docs r)" "malformed env d"
  shows "\<exists>e q1 w2. solr_loop env query mark doc_ids w = Some (Inl e, q1, w2) \<and>
           (e = KeyError ''id'' \<or> e = ValueError)"
  using assms
proof (induction pages arbitrary: query mark w doc_ids)
  case Nil
  then show ?case by simp
next
  case (Cons p ps)
  let ?q = "query\<lparr>param_cursorMark := Some mark\<rparr>"
  from Cons.prems(1) have p: "solr_search env (trace w) ?q = p"
    by (auto simp: Let_def split: if_splits)
  from Cons.prems(1) p obtain m where m: "nextCursorMark p = Some m" "m \<noteq> mark"
    and f: "fetches env ?q m (emit (Search ?q) w) ps = Some (query1, mark1, w1)"
    by (auto simp: Let_def split: if_splits option.splits)
  show ?case
  proof (cases "\<exists>x\<in>set (docs p). malformed env x")
    case True
    then obtain x where "x \<in> set (docs p)" "malformed env x" by blast
    from doc_uuids_Inl [OF this] p m show ?thesis
      by (auto simp: solr_loop.simps [of env query mark doc_ids w] Let_def)
  next
    case False
    then have ids: "doc_uuids env (docs p) = Inr (map (record_id env) (docs p))"
      by (intro doc_uuids_Inr) simp
    from False Cons.prems(2-4) have "r \<in> set ps" by auto
    from Cons.IH [OF f this Cons.prems(3,4)] obtain e q1 w2 where
      "solr_loop env ?q m (doc_ids @ map (record_id env) (docs p)) (emit (Search ?q) w) =
         Some (Inl e, q1, w2)" "e = KeyError ''id'' \<or> e = ValueError"
      by blast
    with p m ids show ?thesis
      by (simp add: solr_loop.simps [of env query mark doc_ids w] Let_def)
  qed
qed

lemma do_solr_query_fetches:
  assumes "fetches env (query\<lparr>param_sort := param_sort query @ [SOLR_UNIQUE_KEY env @ '' asc'']\<rparr>)
             ''*'' w pages = Some (query1, mark1, w1)"
    and "\<forall>r\<in>set pages. \<forall>d\<in>set (docs r). \<not> malformed env d"
    and "nextCursorMark (solr_search env (trace w1) (query1\<lparr>param_cursorMark := Some mark1\<rparr>))
           = Some mark1"
  shows "do_solr_query env query w =
           Some (Inr (page_ids env pages), query1\<lparr>param_cursorMark := Some mark1\<rparr>,
                 emit (Search (query1\<lparr>param_cursorMark := Some mark1\<rparr>)) w1)"
  using solr_loop_fetches [OF assms(1,2), of "[]"] solr_loop_same [OF assms(3)]
  by (simp add: do_solr_query_def)

lemma hex_tile_a:
  "hex_UUID ''0a0a0a0a-0000-4000-8000-00000000000a'' = Some 0x0a0a0a0a00004000800000000000000a"
  by (simp add: hex_UUID_def hex_digit_def)

lemma tile_a_id:
  "record_id (tile_env search results) tile_a = 0x0a0a0a0a00004000800000000000000a"
  by (simp add: record_id_def tile_env_def tile_a_def hex_tile_a)

lemma tile_a_ok: "\<not> malformed (tile_env search results) tile_a"
  by (simp add: malformed_def tile_env_def tile_a_def hex_tile_a)

lemma broken_tile_malformed: "malformed (tile_env search results) broken_tile"
  by (simp add: malformed_def tile_env_def broken_tile_def hex_UUID_def)

subsection \<open>The stable index\<close>

lemma cursor_token_simps [simp]:
  "cursor_token v \<noteq> ''*''" "drop 3 (cursor_token v) = v"
  "(cursor_token u = cursor_token v) = (u = v)"
  by (simp_all add: cursor_token_def)

lemma filter_after_nth:
  fixes K :: "'a \<Rightarrow> 'b::linorder"
  assumes "sorted (map K ss)" "distinct (map K ss)" "0 < k" "k \<le> length ss"
  shows "filter (\<lambda>d. K (ss ! (k - 1)) < K d) ss = drop k ss"
proof -
  have low: "\<not> K (ss ! (k - 1)) < K d" if "d \<in> set (take k ss)" for d
  proof -
    from that obtain i where i: "i < k" "i < length ss" "d = ss ! i"
      by (auto simp: in_set_conv_nth)
    with assms have "map K ss ! i \<le> map K ss ! (k - 1)"
      by (intro sorted_nth_mono) auto
    with i assms show ?thesis by simp
  qed
  have high: "K (ss ! (k - 1)) < K d" if "d \<in> set (drop k ss)" for d
  proof -
    from that obtain i where "i < length (drop k ss)" "d = drop k ss ! i"
      by (auto simp: in_set_conv_nth)
    with assms have "k \<le> k + i \<and> k + i < length ss \<and> d = ss ! (k + i)" by simp
    then obtain j where j: "k \<le> j" "j < length ss" "d = ss ! j" by blast
    with assms have "map K ss ! (k - 1) \<le> map K ss ! j"
      by (intro sorted_nth_mono) auto
    moreover from assms j have "map K ss ! (k - 1) \<noteq> map K ss ! j"
      by (simp add: nth_eq_iff_index_eq del: nth_map)
    ultimately show ?thesis using j assms by simp
  qed
  have "filter (\<lambda>d. K (ss ! (k - 1)) < K d) (take k ss @ drop k ss) = drop k ss"
    unfolding filter_append using low high by (simp add: filter_empty_conv filter_id_conv)
  then show ?thesis by simp
qed

lemma after_cursor_position:
  assumes "sorted (map (field key) ss)" "distinct (map (field key) ss)" "k \<le> length ss"
  shows "after_cursor key (position_mark key ss k) ss = drop k ss"
proof (cases "k = 0")
  case True
  then show ?thesis by (simp add: after_cursor_def position_mark_def)
next
  case False
  with assms filter_after_nth [of "field key" ss k] show ?thesis
    by (simp add: after_cursor_def position_mark_def)
qed

lemma stable_loop:
  assumes srv: "solr_search env = (\<lambda>h. stable_index key ds)"
    and ss: "ss = sort_key (field key) ds"
    and dist: "distinct (map (field key) ds)"
    and ok: "\<forall>d\<in>set ds. \<not> malformed env d"
    and p: "1 \<le> p"
  shows "k \<le> length ss \<Longrightarrow> param_sort query = [key @ '' asc''] \<Longrightarrow>
         param_rows query = Some p \<Longrightarrow>
         \<exists>q1 w1. solr_loop env query (position_mark key ss k) doc_ids w =
           Some (Inr (doc_ids @ map (record_id env) (drop k ss)), q1, w1)"
proof (induction "length ss - k" arbitrary: k query doc_ids w rule: less_induct)
  case less
  let ?K = "field key"
  let ?m = "position_mark key ss k"
  let ?q = "query\<lparr>param_cursorMark := Some ?m\<rparr>"
  let ?page = "take (nat p) (drop k ss)"
  from ss have sorted: "sorted (map ?K ss)" by simp
  have distinct: "distinct (map ?K ss)"
  proof (rule card_distinct)
    from dist have "card (set (map ?K ds)) = length (map ?K ds)" by (rule distinct_card)
    then show "card (set (map ?K ss)) = length (map ?K ss)" by (simp add: ss)
  qed
  from ss ok have okss: "\<forall>d\<in>set ss. \<not> malformed env d" by simp
  have resp: "solr_search env (trace w) ?q =
      \<lparr>numFound = int (length ds), docs = ?page,
       nextCursorMark = Some (if ?page = [] then ?m else cursor_token (?K (last ?page)))\<rparr>"
    using less.prems after_cursor_position [OF sorted distinct less.prems(1)]
    by (simp add: srv stable_index_def Let_def ss)
  show ?case
  proof (cases "k = length ss")
    case True
    with resp have "nextCursorMark (solr_search env (trace w) ?q) = Some ?m" by simp
    from solr_loop_same [OF this, of doc_ids] True show ?thesis by simp
  next
    case False
    with less.prems have klt: "k < length ss" by simp
    define k1 where "k1 = min (k + nat p) (length ss)"
    from klt p have k1: "k < k1" "k1 \<le> length ss" by (auto simp: k1_def)
    from klt p have ne: "?page \<noteq> []" by auto
    have len: "length ?page = k1 - k" by (auto simp: k1_def)
    from ne have "last ?page = ?page ! (length ?page - 1)" by (rule last_conv_nth)
    also from k1 len have "\<dots> = ss ! (k1 - 1)" by (simp add: nth_append)
    finally have last: "last ?page = ss ! (k1 - 1)" .
    from k1 have mark1: "cursor_token (?K (last ?page)) = position_mark key ss k1"
      by (simp add: last position_mark_def)
    have neq: "position_mark key ss k1 \<noteq> ?m"
    proof (cases "k = 0")
      case True
      with k1 show ?thesis by (simp add: position_mark_def)
    next
      case False
      from k1 False have "map ?K ss ! (k1 - 1) \<noteq> map ?K ss ! (k - 1)"
        using distinct by (simp add: nth_eq_iff_index_eq del: nth_map)
      with k1 False show ?thesis by (simp add: position_mark_def)
    qed
    from okss have "\<forall>d\<in>set ?page. \<not> malformed env d"
      by (meson in_set_dropD in_set_takeD)
    then have ids: "doc_uuids env ?page = Inr (map (record_id env) ?page)"
      by (rule doc_uuids_Inr)
    from resp ne mark1 neq ids have step:
      "solr_loop env query ?m doc_ids w =
         solr_loop env ?q (position_mark key ss k1)
           (doc_ids @ map (record_id env) ?page) (emit (Search ?q) w)"
      by (simp add: solr_loop.simps [of env query ?m doc_ids w] Let_def)
    from k1 have "length ss - k1 < length ss - k" by simp
    from less.hyps [OF this k1(2), of ?q "doc_ids @ map (record_id env) ?page" "emit (Search ?q) w"]
      less.prems
    obtain q1 w1 where
      "solr_loop env ?q (position_mark key ss k1)
         (doc_ids @ map (record_id env) ?page) (emit (Search ?q) w) =
       Some (Inr ((doc_ids @ map (record_id env) ?page) @ map (record_id env) (drop k1 ss)), q1, w1)"
      by auto
    moreover have "?page @ drop k1 ss = drop k ss"
    proof -
      have "drop k1 ss = drop (nat p) (drop k ss)"
        by (simp add: k1_def min_def add.commute)
      then show ?thesis by (simp only: append_take_drop_id)
    qed
    then have "map (record_id env) ?page @ map (record_id env) (drop k1 ss) =
        map (record_id env) (drop k ss)"
      by (metis map_append)
    ultimately show ?thesis using step by simp
  qed
qed

lemma hex_tile_b:
  "hex_UUID ''0b0b0b0b-0000-4000-8000-00000000000b'' = Some 0x0b0b0b0b00004000800000000000000b"
  by (simp add: hex_UUID_def hex_digit_def)

lemma hex_tile_c:
  "hex_UUID ''0c0c0c0c-0000-4000-8000-00000000000c'' = Some 0x0c0c0c0c00004000800000000000000c"
  by (simp add: hex_UUID_def hex_digit_def)

lemma sort_three_tiles: "sort_key (field ''id'') three_tiles = [tile_a, tile_b, tile_c]"
  by code_simp

lemma three_ids:
  "map (record_id three_tiles_env) [tile_a, tile_b, tile_c] =
     [0x0a0a0a0a00004000800000000000000a, 0x0b0b0b0b00004000800000000000000b,
      0x0c0c0c0c00004000800000000000000c]"
  by (simp add: record_id_def three_tiles_env_def tile_env_def tile_a_def tile_b_def tile_c_def
      hex_tile_a hex_tile_b hex_tile_c)

section \<open>The paginator on a stable result set\<close>

text \<open>
  C1: let the index hold a result set of \<open>n > 0\<close> documents that does not change during
  the run, with pairwise different unique keys and pairwise different, well-formed record
  IDs, and let the page size be between 1 and \<open>n\<close>. Then \<open>do_solr_query\<close> returns, and it
  returns exactly \<open>n\<close> record IDs, pairwise different, the IDs of the documents of the
  result set and of no other, in ascending order of the unique key. Since every ID of
  every page taken in is appended, none is fetched twice.
\<close>

theorem paginator_complete:
  assumes srv: "solr_search env = (\<lambda>h. stable_index (SOLR_UNIQUE_KEY env) ds)"
    and n: "0 < length ds"
    and rows: "param_rows query = Some p" "1 \<le> p" "p \<le> int (length ds)"
    and nosort: "param_sort query = []"
    and keys: "distinct (map (field (SOLR_UNIQUE_KEY env)) ds)"
    and ok: "\<forall>d\<in>set ds. \<not> malformed env d"
    and ids: "distinct (map (record_id env) ds)"
  shows "\<exists>doc_ids q1 w1.
           do_solr_query env query w = Some (Inr doc_ids, q1, w1) \<and>
           length doc_ids = length ds \<and>
           distinct doc_ids \<and>
           set doc_ids = record_id env ` set ds \<and>
           doc_ids = map (record_id env) (sort_key (field (SOLR_UNIQUE_KEY env)) ds) \<and>
           sorted (map (field (SOLR_UNIQUE_KEY env)) (sort_key (field (SOLR_UNIQUE_KEY env)) ds))"
proof -
  let ?key = "SOLR_UNIQUE_KEY env"
  let ?ss = "sort_key (field ?key) ds"
  let ?q = "query\<lparr>param_sort := param_sort query @ [?key @ '' asc'']\<rparr>"
  from nosort rows have "param_sort ?q = [?key @ '' asc'']" "param_rows ?q = Some p" by simp_all
  with stable_loop [OF srv refl keys ok rows(2), of 0 ?q "[]" w]
  obtain q1 w1 where
    r: "do_solr_query env query w = Some (Inr (map (record_id env) ?ss), q1, w1)"
    by (auto simp: do_solr_query_def position_mark_def)
  have "distinct (map (record_id env) ?ss)"
  proof (rule card_distinct)
    from ids have "card (set (map (record_id env) ds)) = length (map (record_id env) ds)"
      by (rule distinct_card)
    then show "card (set (map (record_id env) ?ss)) = length (map (record_id env) ?ss)"
      by simp
  qed
  with r show ?thesis by simp
qed

theorem paginator_complete_witness:
  "length three_tiles = 3 \<and> param_rows star_query = Some 2 \<and>
   (\<exists>q1 w1. do_solr_query three_tiles_env star_query (operator []) =
      Some (Inr [0x0a0a0a0a00004000800000000000000a, 0x0b0b0b0b00004000800000000000000b,
                 0x0c0c0c0c00004000800000000000000c], q1, w1))"
proof -
  have srv: "solr_search three_tiles_env =
      (\<lambda>h. stable_index (SOLR_UNIQUE_KEY three_tiles_env) three_tiles)"
    by (simp add: three_tiles_env_def tile_env_def)
  have n: "0 < length three_tiles" by (simp add: three_tiles_def)
  have rows: "param_rows star_query = Some 2" by (simp add: star_query_def)
  have p1: "(1::int) \<le> 2" by simp
  have p2: "(2::int) \<le> int (length three_tiles)" by (simp add: three_tiles_def)
  have nosort: "param_sort star_query = []" by (simp add: star_query_def)
  have keys: "distinct (map (field (SOLR_UNIQUE_KEY three_tiles_env)) three_tiles)"
    by (simp add: three_tiles_env_def tile_env_def three_tiles_def field_def
        tile_a_def tile_b_def tile_c_def)
  have ok: "\<forall>d\<in>set three_tiles. \<not> malformed three_tiles_env d"
    by (simp add: three_tiles_env_def tile_env_def three_tiles_def malformed_def
        tile_a_def tile_b_def tile_c_def hex_tile_a hex_tile_b hex_tile_c)
  have ids: "distinct (map (record_id three_tiles_env) three_tiles)"
    using three_ids by (simp add: three_tiles_def)
  have key: "SOLR_UNIQUE_KEY three_tiles_env = ''id''"
    by (simp add: three_tiles_env_def tile_env_def)
  from paginator_complete [OF srv n rows p1 p2 nosort keys ok ids, of "operator []"]
  have "\<exists>q1 w1. do_solr_query three_tiles_env star_query (operator []) =
      Some (Inr [0x0a0a0a0a00004000800000000000000a, 0x0b0b0b0b00004000800000000000000b,
                 0x0c0c0c0c00004000800000000000000c], q1, w1)"
    unfolding key sort_three_tiles three_ids by blast
  with rows show ?thesis by (simp add: three_tiles_def)
qed

section \<open>A cursor mark that comes back unchanged\<close>

text \<open>
  C2, as the code has it: when the response to a page request carries the cursor mark
  that was sent, the loop stops after that one search and returns the IDs it had
  accumulated, unchanged; the documents of that response are not looked at. This holds
  for every state of the loop, the first request included.
\<close>

theorem same_cursor_stops:
  assumes "nextCursorMark (solr_search env (trace w) (query\<lparr>param_cursorMark := Some mark\<rparr>))
             = Some mark"
  shows "solr_loop env query mark doc_ids w =
           Some (Inr doc_ids, query\<lparr>param_cursorMark := Some mark\<rparr>,
                 w\<lparr>trace := trace w @ [Search (query\<lparr>param_cursorMark := Some mark\<rparr>)]\<rparr>)"
  using assms by (simp add: solr_loop.simps [of env query mark doc_ids w] emit_def Let_def)

theorem same_cursor_stops_witness:
  "nextCursorMark (solr_search (tile_env (scripted [sentinel_reply]) []) (trace (operator []))
      (star_query\<lparr>param_cursorMark := Some ''*''\<rparr>)) = Some ''*'' \<and>
   solr_loop (tile_env (scripted [sentinel_reply]) []) star_query ''*'' [10, 11] (operator []) =
     Some (Inr [10, 11], star_query\<lparr>param_cursorMark := Some ''*''\<rparr>,
           \<lparr>trace = [Search (star_query\<lparr>param_cursorMark := Some ''*''\<rparr>)], stdin = []\<rparr>)"
proof -
  have h: "nextCursorMark (solr_search (tile_env (scripted [sentinel_reply]) [])
      (trace (operator [])) (star_query\<lparr>param_cursorMark := Some ''*''\<rparr>)) = Some ''*''"
    by (simp add: tile_env_def scripted_def searches_def operator_def sentinel_reply_def)
  from same_cursor_stops [OF h, of "[10, 11]"] h show ?thesis
    by (simp add: operator_def)
qed

text \<open>
  The claim adds that this is only reached after a page has contributed. It is not so:
  the index may answer the very first request, sent with \<open>*\<close>, with \<open>*\<close>, as it does
  when no document matches any more. The run below makes one search and stops there: no
  page has contributed, and the result is empty.
\<close>

theorem same_cursor_on_first_request:
  "nextCursorMark (solr_search (tile_env (scripted [sentinel_reply]) []) [] first_page_query)
     = Some ''*'' \<and>
   do_solr_query (tile_env (scripted [sentinel_reply]) []) star_query (operator []) =
     Some (Inr [], first_page_query, \<lparr>trace = [Search first_page_query], stdin = []\<rparr>)"
  by code_simp

section \<open>The second confirmation\<close>

text \<open>
  C3, as the code has it: once the gate has returned true and the paginator has returned
  its list, \<open>delete_by_query\<close> always asks a second time, whether the list is empty or
  not, with the length of the list as the count. This second question is
  \<open>confirm_delete\<close>, which accepts \<open>y\<close> and \<open>n\<close> only: every other line, the empty line
  and \<open>s\<close> included, is asked again. On \<open>y\<close> the deleter runs, and the IDs are logged
  when it returns; on \<open>n\<close> the run exits.
\<close>

theorem second_confirmation:
  assumes "build_query env args = Inr query"
    and "check_query env query w = (Inr True, w1)"
    and "do_solr_query env query (emit (Info ''Collecting tiles ....'') w1) =
           Some (Inr solr_docs, query1, w2)"
    and "stdin w2 = rejected @ l # rest"
    and "\<forall>x\<in>set rejected. x \<noteq> ''y'' \<and> x \<noteq> ''n''"
    and "l = ''y'' \<or> l = ''n''"
  shows "delete_by_query env args w =
           (let w3 = w2\<lparr>trace := trace w2 @
                        replicate (Suc (length rejected))
                          (Input confirm_prompt (int (length solr_docs))),
                      stdin := rest\<rparr>
            in if l = ''y''
               then
                 (case do_delete env solr_docs query1 w3 of
                    (Inl e, w4) \<Rightarrow> Some (Inl e, w4)
                  | (Inr deleted_ids, w4) \<Rightarrow>
                      Some (Inr (), emit (InfoIds ''Deleted tile IDs %s'' deleted_ids) w4))
               else Some (Inr (), emit (Info ''Exiting'') w3))"
proof -
  from assms(5) have "\<forall>x\<in>set rejected. x \<notin> set [''y'', ''n'']" by simp
  moreover from assms(6) have "l \<in> set [''y'', ''n'']" by auto
  ultimately have c: "confirm_delete (int (length solr_docs)) w2 =
      (Inr (l = ''y''),
       w2\<lparr>trace := trace w2 @
             replicate (Suc (length rejected)) (Input confirm_prompt (int (length solr_docs))),
           stdin := rest\<rparr>)"
    using assms(4) by (rule confirm_delete_first_valid)
  show ?thesis
  proof (cases "l = ''y''")
    case True
    with assms(1-3) c show ?thesis
      by (simp add: delete_by_query_def Let_def)
  next
    case False
    with assms(1-3) c show ?thesis
      by (simp add: delete_by_query_def Let_def)
  qed
qed


theorem second_confirmation_witness:
  "build_query (tile_env (scripted one_tile_index) [(True, ''ok'')]) star_args =
     Inr star_query \<and>
   check_query (tile_env (scripted one_tile_index) [(True, ''ok'')]) star_query
       (operator [''y'', '''', ''s'', ''y'']) =
     (Inr True,
      \<lparr>trace = [Search star_query, Input check_prompt 1], stdin = ['''', ''s'', ''y'']\<rparr>) \<and>
   delete_by_query (tile_env (scripted one_tile_index) [(True, ''ok'')]) star_args
       (operator [''y'', '''', ''s'', ''y'']) =
     Some (Inr (),
       \<lparr>trace =
          [Search star_query, Input check_prompt 1, Info ''Collecting tiles ....'',
           Search first_page_query,
           Search (first_page_query\<lparr>param_cursorMark := Some ''AoEa''\<rparr>),
           Input confirm_prompt 1, Input confirm_prompt 1, Input confirm_prompt 1,
           Info ''Executing Cassandra delete...'',
           Prepare ''DELETE FROM %s WHERE tile_id=?'' ''sea_surface_temp'',
           ExecuteConcurrent [0x0a0a0a0a00004000800000000000000a],
           Info ''Executing Solr delete...'',
           Delete (first_page_query\<lparr>param_cursorMark := Some ''AoEa''\<rparr>) False,
           Commit,
           InfoIds ''Deleted tile IDs %s'' [0x0a0a0a0a00004000800000000000000a]],
        stdin = []\<rparr>)"
proof -
  let ?env = "tile_env (scripted one_tile_index) [(True, ''ok'')]"
  let ?w1 = "\<lparr>trace = [Search star_query, Input check_prompt 1], stdin = ['''', ''s'', ''y'']\<rparr>"
  let ?w15 = "\<lparr>trace = [Search star_query, Input check_prompt 1, Info ''Collecting tiles ....'',
           Search first_page_query], stdin = ['''', ''s'', ''y'']\<rparr>"
  let ?q2 = "first_page_query\<lparr>param_cursorMark := Some ''AoEa''\<rparr>"
  let ?w2 = "\<lparr>trace = [Search star_query, Input check_prompt 1, Info ''Collecting tiles ....'',
           Search first_page_query, Search ?q2],
        stdin = ['''', ''s'', ''y'']\<rparr>"
  let ?page = "\<lparr>numFound = 1, docs = [tile_a], nextCursorMark = Some ''AoEa''\<rparr>"
  have h1: "build_query ?env star_args = Inr star_query" by (rule build_star_query)
  have nf: "numFound (solr_search ?env (trace (operator [''y'', '''', ''s'', ''y''])) star_query) = 1"
    by (simp add: tile_env_def scripted_def searches_def operator_def one_tile_index_def)
  from check_query_first_valid [of ?env "operator [''y'', '''', ''s'', ''y'']" star_query
      "[]" "''y''" "['''', ''s'', ''y'']"] nf
  have h2: "check_query ?env star_query (operator [''y'', '''', ''s'', ''y'']) = (Inr True, ?w1)"
    by (simp add: Let_def operator_def)
  have f: "fetches ?env
      (star_query\<lparr>param_sort := param_sort star_query @ [SOLR_UNIQUE_KEY ?env @ '' asc'']\<rparr>)
      ''*'' (emit (Info ''Collecting tiles ....'') ?w1) [?page] =
        Some (first_page_query, ''AoEa'', ?w15)"
    by (simp add: tile_env_def scripted_def searches_def star_query_def
        first_page_query_def one_tile_index_def emit_def Let_def)
  have ok: "\<forall>r\<in>set [?page]. \<forall>d\<in>set (docs r). \<not> malformed ?env d"
    by (simp add: tile_a_ok)
  have t: "nextCursorMark (solr_search ?env (trace ?w15) ?q2) = Some ''AoEa''"
    by (simp add: tile_env_def scripted_def searches_def one_tile_index_def)
  from do_solr_query_fetches [OF f ok t]
  have h3: "do_solr_query ?env star_query (emit (Info ''Collecting tiles ....'') ?w1) =
      Some (Inr [0x0a0a0a0a00004000800000000000000a], ?q2, ?w2)"
    by (simp add: page_ids_def tile_a_id emit_def)
  have h4: "stdin ?w2 = ['''', ''s''] @ ''y'' # []" by simp
  have h5: "\<forall>x\<in>set ['''', ''s'']. x \<noteq> ''y'' \<and> x \<noteq> ''n''" by simp
  have h6: "''y'' = ''y'' \<or> ''y'' = ''n''" by simp
  have dd: "do_delete ?env ids q a =
      (Inr ids,
       a\<lparr>trace := trace a @
          [Info ''Executing Cassandra delete...'',
           Prepare ''DELETE FROM %s WHERE tile_id=?'' ''sea_surface_temp'',
           ExecuteConcurrent ids,
           Info ''Executing Solr delete...'', Delete q False, Commit]\<rparr>)" for ids q a
    by (simp add: do_delete_trace execute_concurrent_with_args_def tile_env_def warnings_def)
  from second_confirmation [OF h1 h2 h3 h4 h5 h6] have
    "delete_by_query ?env star_args (operator [''y'', '''', ''s'', ''y'']) =
       Some (Inr (),
         \<lparr>trace =
          [Search star_query, Input check_prompt 1, Info ''Collecting tiles ....'',
           Search first_page_query, Search ?q2,
           Input confirm_prompt 1, Input confirm_prompt 1, Input confirm_prompt 1,
           Info ''Executing Cassandra delete...'',
           Prepare ''DELETE FROM %s WHERE tile_id=?'' ''sea_surface_temp'',
           ExecuteConcurrent [0x0a0a0a0a00004000800000000000000a],
           Info ''Executing Solr delete...'',
           Delete ?q2 False,
           Commit,
           InfoIds ''Deleted tile IDs %s'' [0x0a0a0a0a00004000800000000000000a]],
          stdin = []\<rparr>)"
    by (simp add: Let_def dd emit_def numeral_3_eq_3)
  with h1 h2 show ?thesis by blast
qed

text \<open>
  The claim has the second confirmation depend on a non-empty list and accept the
  answers of the first gate. In the run below the paginator returns the empty list (the
  page response carries no cursor mark), the operator is still asked, with the count 0,
  and the empty line does not confirm: the question is repeated.
\<close>

theorem empty_roster_still_confirmed:
  "delete_by_query (tile_env (scripted [one_hit]) []) star_args (operator [''y'', '''', ''n'']) =
     Some (Inr (),
       \<lparr>trace =
          [Search star_query, Input check_prompt 1, Info ''Collecting tiles ....'',
           Search first_page_query, Input confirm_prompt 0, Input confirm_prompt 0,
           Info ''Exiting''],
        stdin = []\<rparr>)"
  by code_simp

section \<open>The confirmation gate and the operator's answers\<close>

text \<open>
  C4: \<open>check_query\<close> returns true only when the last line it read from the operator is
  \<open>y\<close> or the empty line. When the count is not zero, the lines outside \<open>y\<close>, \<open>n\<close>,
  \<open>s\<close> and the empty line are rejected: each of them only causes the same prompt to be
  shown again, no search is made and nothing is logged, and the first line that is not
  rejected decides, \<open>y\<close> and the empty line for true, \<open>n\<close> for false.
\<close>

theorem check_query_gate:
  "(check_query env query w = (Inr True, w1) \<longrightarrow>
      (\<exists>consumed l. stdin w = consumed @ l # stdin w1 \<and> (l = ''y'' \<or> l = ''''))) \<and>
   (numFound (solr_search env (trace w) query) \<noteq> 0 \<and>
    (\<forall>x\<in>set rejected. x \<notin> {''y'', ''n'', ''s'', ''''}) \<and>
    stdin w = rejected @ l # rest \<longrightarrow>
      (l = ''y'' \<or> l = '''' \<longrightarrow>
         check_query env query w =
           (Inr True,
            w\<lparr>trace := trace w @ Search query #
                 replicate (Suc (length rejected))
                   (Input check_prompt (numFound (solr_search env (trace w) query))),
               stdin := rest\<rparr>)) \<and>
      (l = ''n'' \<longrightarrow>
         check_query env query w =
           (Inr False,
            w\<lparr>trace := trace w @ Search query #
                 replicate (Suc (length rejected))
                   (Input check_prompt (numFound (solr_search env (trace w) query))),
               stdin := rest\<rparr>)))"
proof (intro conjI impI)
  assume "check_query env query w = (Inr True, w1)"
  then show "\<exists>consumed l. stdin w = consumed @ l # stdin w1 \<and> (l = ''y'' \<or> l = '''')"
    by (rule check_query_True_last_input)
next
  assume h: "numFound (solr_search env (trace w) query) \<noteq> 0 \<and>
    (\<forall>x\<in>set rejected. x \<notin> {''y'', ''n'', ''s'', ''''}) \<and> stdin w = rejected @ l # rest"
    and l: "l = ''y'' \<or> l = ''''"
  from h have "\<forall>x\<in>set rejected. x \<notin> set [''y'', ''n'', ''s'', '''']" by simp
  moreover from l have "l \<in> set [''y'', ''n'', ''s'', '''']" by auto
  ultimately show "check_query env query w =
           (Inr True,
            w\<lparr>trace := trace w @ Search query #
                 replicate (Suc (length rejected))
                   (Input check_prompt (numFound (solr_search env (trace w) query))),
               stdin := rest\<rparr>)"
    using h l check_query_first_valid [of env w query rejected l rest]
    by (simp add: Let_def)
next
  assume h: "numFound (solr_search env (trace w) query) \<noteq> 0 \<and>
    (\<forall>x\<in>set rejected. x \<notin> {''y'', ''n'', ''s'', ''''}) \<and> stdin w = rejected @ l # rest"
    and l: "l = ''n''"
  from h have "\<forall>x\<in>set rejected. x \<notin> set [''y'', ''n'', ''s'', '''']" by simp
  moreover from l have "l \<in> set [''y'', ''n'', ''s'', '''']" by auto
  ultimately show "check_query env query w =
           (Inr False,
            w\<lparr>trace := trace w @ Search query #
                 replicate (Suc (length rejected))
                   (Input check_prompt (numFound (solr_search env (trace w) query))),
               stdin := rest\<rparr>)"
    using h l check_query_first_valid [of env w query rejected l rest]
    by (simp add: Let_def)
qed

theorem check_query_gate_witness:
  "check_query (tile_env (scripted [one_hit]) []) star_query (operator [''yes'', ''Y'', '''', ''n'']) =
     (Inr True,
      \<lparr>trace = [Search star_query, Input check_prompt 1, Input check_prompt 1,
                Input check_prompt 1],
       stdin = [''n'']\<rparr>) \<and>
   (\<exists>consumed l. [''yes'', ''Y'', '''', ''n''] = consumed @ l # [''n''] \<and> (l = ''y'' \<or> l = '''')) \<and>
   check_query (tile_env (scripted [one_hit]) []) star_query (operator [''yes'', ''n'', ''y'']) =
     (Inr False,
      \<lparr>trace = [Search star_query, Input check_prompt 1, Input check_prompt 1],
       stdin = [''y'']\<rparr>)"
proof -
  let ?env = "tile_env (scripted [one_hit]) []"
  have nf: "numFound (solr_search ?env (trace (operator ls)) star_query) \<noteq> 0" for ls
    by (simp add: tile_env_def scripted_def searches_def operator_def one_hit_def)
  have r1: "\<forall>x\<in>set [''yes'', ''Y'']. x \<notin> {''y'', ''n'', ''s'', ''''}" by simp
  have r2: "\<forall>x\<in>set [''yes'']. x \<notin> {''y'', ''n'', ''s'', ''''}" by simp
  have n1: "numFound (solr_search ?env [] star_query) = 1"
    by (simp add: tile_env_def scripted_def searches_def one_hit_def)
  from check_query_gate [of ?env star_query "operator [''yes'', ''Y'', '''', ''n'']" _
      "[''yes'', ''Y'']" "''''" "[''n'']"] nf r1
  have a: "check_query ?env star_query (operator [''yes'', ''Y'', '''', ''n'']) =
     (Inr True,
      \<lparr>trace = [Search star_query, Input check_prompt 1, Input check_prompt 1,
                Input check_prompt 1],
       stdin = [''n'']\<rparr>)"
    by (simp add: operator_def n1 numeral_3_eq_3)
  from check_query_gate [of ?env star_query "operator [''yes'', ''Y'', '''', ''n'']"
      "\<lparr>trace = [Search star_query, Input check_prompt 1, Input check_prompt 1,
                Input check_prompt 1], stdin = [''n'']\<rparr>"] a
  have b: "\<exists>consumed l. [''yes'', ''Y'', '''', ''n''] = consumed @ l # [''n''] \<and> (l = ''y'' \<or> l = '''')"
    by (simp add: operator_def)
  from check_query_gate [of ?env star_query "operator [''yes'', ''n'', ''y'']" _
      "[''yes'']" "''n''" "[''y'']"] nf r2
  have c: "check_query ?env star_query (operator [''yes'', ''n'', ''y'']) =
     (Inr False,
      \<lparr>trace = [Search star_query, Input check_prompt 1, Input check_prompt 1],
       stdin = [''y'']\<rparr>)"
    by (simp add: operator_def n1 numeral_2_eq_2)
  from a b c show ?thesis by blast
qed

section \<open>The confirmation gate on an empty result\<close>

text \<open>
  C5: when the count check reports \<open>numFound = 0\<close>, \<open>check_query\<close> returns false after
  one search and one log line, with no prompt and with the operator's input untouched;
  \<open>delete_by_query\<close> then logs that it exits and returns, so the whole run consists of
  these three events and holds no deletion call.
\<close>

theorem zero_results_abort:
  assumes "numFound (solr_search env (trace w) query) = 0"
  shows "check_query env query w =
           (Inr False,
            w\<lparr>trace := trace w @ [Search query, Info ''Query returned 0 results'']\<rparr>) \<and>
         (build_query env args = Inr query \<longrightarrow>
            delete_by_query env args w =
              Some (Inr (), w\<lparr>trace := trace w @
                [Search query, Info ''Query returned 0 results'', Info ''Exiting'']\<rparr>))"
proof -
  from assms have "check_query env query w =
      (Inr False, w\<lparr>trace := trace w @ [Search query, Info ''Query returned 0 results'']\<rparr>)"
    by (simp add: check_query.simps [of env query w] emit_def)
  then show ?thesis
    by (simp add: delete_by_query_def emit_def)
qed

theorem zero_results_abort_witness:
  "numFound (solr_search (tile_env (scripted [no_response]) [])
       (trace (operator [''y'', ''y''])) star_query) = 0 \<and>
   build_query (tile_env (scripted [no_response]) []) star_args = Inr star_query \<and>
   check_query (tile_env (scripted [no_response]) []) star_query (operator [''y'', ''y'']) =
     (Inr False,
      \<lparr>trace = [Search star_query, Info ''Query returned 0 results''],
       stdin = [''y'', ''y'']\<rparr>) \<and>
   delete_by_query (tile_env (scripted [no_response]) []) star_args (operator [''y'', ''y'']) =
     Some (Inr (),
       \<lparr>trace = [Search star_query, Info ''Query returned 0 results'', Info ''Exiting''],
        stdin = [''y'', ''y'']\<rparr>)"
proof -
  have h: "numFound (solr_search (tile_env (scripted [no_response]) [])
      (trace (operator [''y'', ''y''])) star_query) = 0"
    by (simp add: tile_env_def scripted_def searches_def operator_def no_response_def)
  from zero_results_abort [OF h, of star_args] h build_star_query show ?thesis
    by (simp add: operator_def)
qed

section \<open>The order of the two deletions\<close>



section \<open>Failures of the row store\<close>

text \<open>
  C7 asks that a failed row-store deletion be logged as a warning and never raised, that
  the other records and the bulk delete of the index go ahead, and that \<open>do_delete\<close>
  return the whole roster all the same. Lines 187 to 189 are written for this, but the
  call of lines 184 and 185 leaves the driver to raise the first failure, so the code
  does not do it. Below, the row store fails for the second of three tiles: \<open>do_delete\<close>
  ends with the driver's exception right after the concurrent call, with no warning, no
  bulk delete, no commit and no roster.
\<close>

theorem row_store_failure_raises:
  "do_delete (tile_env (scripted []) [(True, ''ok''), (False, ''timeout''), (True, ''ok'')])
      [10, 11, 12] star_query (operator []) =
     (Inl (DriverException ''timeout''),
      \<lparr>trace =
         [Info ''Executing Cassandra delete...'',
          Prepare ''DELETE FROM %s WHERE tile_id=?'' ''sea_surface_temp'',
          ExecuteConcurrent [10, 11, 12]],
       stdin = []\<rparr>)"
  by (simp add: do_delete_trace execute_concurrent_with_args_def tile_env_def operator_def)

section \<open>Documents without a usable record ID\<close>

text \<open>
  C8: a document whose \<open>id\<close> field is missing or is not a UUID, on any page the paginator
  takes in (a response that carries a new cursor mark), makes \<open>do_solr_query\<close> raise:
  the run ends with \<open>KeyError\<close> or \<open>ValueError\<close> and returns no list. Line 168 never
  drops a document: when it yields a list for a page, the list has one ID for every
  document of the page and no document of the page is malformed.
\<close>

theorem malformed_record_is_fatal:
  assumes "fetches env (query\<lparr>param_sort := param_sort query @ [SOLR_UNIQUE_KEY env @ '' asc'']\<rparr>)
             ''*'' w pages = Some (query1, mark1, w1)"
    and "r \<in> set pages" and "d \<in> set (docs r)" and "malformed env d"
  shows "(\<exists>e q1 w2. do_solr_query env query w = Some (Inl e, q1, w2) \<and>
            (e = KeyError ''id'' \<or> e = ValueError)) \<and>
         (\<forall>ds ids. doc_uuids env ds = Inr ids \<longrightarrow>
            length ids = length ds \<and> (\<forall>x\<in>set ds. \<not> malformed env x))"
proof
  show "\<exists>e q1 w2. do_solr_query env query w = Some (Inl e, q1, w2) \<and>
          (e = KeyError ''id'' \<or> e = ValueError)"
    using solr_loop_malformed [OF assms, of "[]"] by (simp add: do_solr_query_def)
  show "\<forall>ds ids. doc_uuids env ds = Inr ids \<longrightarrow>
          length ids = length ds \<and> (\<forall>x\<in>set ds. \<not> malformed env x)"
    by (auto dest: doc_uuids_result)
qed

theorem malformed_record_is_fatal_witness:
  "fetches (tile_env (scripted [page_broken]) [])
      (star_query\<lparr>param_sort := param_sort star_query @
         [SOLR_UNIQUE_KEY (tile_env (scripted [page_broken]) []) @ '' asc'']\<rparr>)
      ''*'' (operator []) [page_broken] =
     Some (first_page_query, ''AoEb'', \<lparr>trace = [Search first_page_query], stdin = []\<rparr>) \<and>
   broken_tile \<in> set (docs page_broken) \<and>
   malformed (tile_env (scripted [page_broken]) []) broken_tile \<and>
   (\<exists>e q1 w2. do_solr_query (tile_env (scripted [page_broken]) []) star_query (operator []) =
       Some (Inl e, q1, w2) \<and> (e = KeyError ''id'' \<or> e = ValueError))"
proof -
  let ?env = "tile_env (scripted [page_broken]) []"
  have f: "fetches ?env
      (star_query\<lparr>param_sort := param_sort star_query @ [SOLR_UNIQUE_KEY ?env @ '' asc'']\<rparr>)
      ''*'' (operator []) [page_broken] =
        Some (first_page_query, ''AoEb'', \<lparr>trace = [Search first_page_query], stdin = []\<rparr>)"
    by (simp add: tile_env_def scripted_def searches_def operator_def star_query_def
        first_page_query_def page_broken_def emit_def Let_def)
  have r: "page_broken \<in> set [page_broken]" by simp
  have d: "broken_tile \<in> set (docs page_broken)" by (simp add: page_broken_def)
  from malformed_record_is_fatal [OF f r d broken_tile_malformed] f d broken_tile_malformed
  show ?thesis by blast
qed

section \<open>The response that ends a run\<close>

text \<open>
  C9: take a run in which the index answers the requests with \<open>pages\<close>, each carrying
  a new cursor mark and well-formed documents, and then with a response whose mark is
  the one just sent. Then \<open>do_solr_query\<close> returns, and what it returns is the record IDs
  of the documents of \<open>pages\<close>, in order, and nothing else: the documents of the last
  response do not occur in the result, whatever they are.
\<close>

theorem terminal_page_not_appended:
  assumes "fetches env (query\<lparr>param_sort := param_sort query @ [SOLR_UNIQUE_KEY env @ '' asc'']\<rparr>)
             ''*'' w pages = Some (query1, mark1, w1)"
    and "\<forall>r\<in>set pages. \<forall>d\<in>set (docs r). \<not> malformed env d"
    and "nextCursorMark (solr_search env (trace w1) (query1\<lparr>param_cursorMark := Some mark1\<rparr>))
           = Some mark1"
  shows "do_solr_query env query w =
           Some (Inr (page_ids env pages), query1\<lparr>param_cursorMark := Some mark1\<rparr>,
                 emit (Search (query1\<lparr>param_cursorMark := Some mark1\<rparr>)) w1)"
  using assms by (rule do_solr_query_fetches)

theorem terminal_page_not_appended_witness:
  "fetches (tile_env (scripted [page_a, terminal_b]) [])
      (star_query\<lparr>param_sort := param_sort star_query @
         [SOLR_UNIQUE_KEY (tile_env (scripted [page_a, terminal_b]) []) @ '' asc'']\<rparr>)
      ''*'' (operator []) [page_a] =
     Some (first_page_query, ''AoEa'', \<lparr>trace = [Search first_page_query], stdin = []\<rparr>) \<and>
   solr_search (tile_env (scripted [page_a, terminal_b]) []) [Search first_page_query]
      (first_page_query\<lparr>param_cursorMark := Some ''AoEa''\<rparr>) = terminal_b \<and>
   docs terminal_b = [tile_b] \<and>
   do_solr_query (tile_env (scripted [page_a, terminal_b]) []) star_query (operator []) =
     Some (Inr [0x0a0a0a0a00004000800000000000000a],
           first_page_query\<lparr>param_cursorMark := Some ''AoEa''\<rparr>,
           \<lparr>trace = [Search first_page_query,
              Search (first_page_query\<lparr>param_cursorMark := Some ''AoEa''\<rparr>)], stdin = []\<rparr>)"
proof -
  let ?env = "tile_env (scripted [page_a, terminal_b]) []"
  let ?w1 = "\<lparr>trace = [Search first_page_query], stdin = []\<rparr>"
  have f: "fetches ?env
      (star_query\<lparr>param_sort := param_sort star_query @ [SOLR_UNIQUE_KEY ?env @ '' asc'']\<rparr>)
      ''*'' (operator []) [page_a] = Some (first_page_query, ''AoEa'', ?w1)"
    by (simp add: tile_env_def scripted_def searches_def operator_def star_query_def
        first_page_query_def page_a_def emit_def Let_def)
  have ok: "\<forall>r\<in>set [page_a]. \<forall>d\<in>set (docs r). \<not> malformed ?env d"
    by (simp add: page_a_def tile_a_ok)
  have t: "solr_search ?env [Search first_page_query]
      (first_page_query\<lparr>param_cursorMark := Some ''AoEa''\<rparr>) = terminal_b"
    by (simp add: tile_env_def scripted_def searches_def)
  have t1: "nextCursorMark (solr_search ?env (trace ?w1)
      (first_page_query\<lparr>param_cursorMark := Some ''AoEa''\<rparr>)) = Some ''AoEa''"
    by (simp add: tile_env_def scripted_def searches_def terminal_b_def)
  have d: "docs terminal_b = [tile_b]" by (simp add: terminal_b_def)
  from terminal_page_not_appended [OF f ok t1]
  have "do_solr_query ?env star_query (operator []) =
     Some (Inr [0x0a0a0a0a00004000800000000000000a],
           first_page_query\<lparr>param_cursorMark := Some ''AoEa''\<rparr>,
           \<lparr>trace = [Search first_page_query,
              Search (first_page_query\<lparr>param_cursorMark := Some ''AoEa''\<rparr>)], stdin = []\<rparr>)"
    by (simp add: page_ids_def page_a_def tile_a_id emit_def)
  with f t d show ?thesis by blast
qed

section \<open>The sampling branch\<close>

text \<open>
  C10: the sampling branch is partial. It draws from the documents of the count response
  without looking whether there are any, and raises \<open>ValueError\<close> when there are none;
  it shows the first document of the follow-up search without looking whether there is
  one, and raises \<open>IndexError\<close> when there is none. It completes exactly when the count
  response holds a document, the document drawn has the unique key, and the follow-up
  search returns a document. The gate reaches the branch on the answer \<open>s\<close> with no
  test in between, so \<open>check_query\<close> itself raises there.
\<close>

theorem sample_branch_partial:
  "(docs solr_response = [] \<longrightarrow> sample_branch env solr_response w = (Inl ValueError, w)) \<and>
   ((\<exists>w1. sample_branch env solr_response w = (Inr (), w1)) \<longleftrightarrow>
      docs solr_response \<noteq> [] \<and>
      (\<exists>v. map_of (docs solr_response !
                (sample_pick env (trace w) (length (docs solr_response))
                   mod length (docs solr_response)))
              (SOLR_UNIQUE_KEY env) = Some v \<and>
           docs (solr_search env (trace w) (sample_query env v)) \<noteq> [])) \<and>
   (\<forall>v. docs solr_response \<noteq> [] \<and>
        map_of (docs solr_response !
                (sample_pick env (trace w) (length (docs solr_response))
                   mod length (docs solr_response)))
              (SOLR_UNIQUE_KEY env) = Some v \<and>
        docs (solr_search env (trace w) (sample_query env v)) = [] \<longrightarrow>
        sample_branch env solr_response w =
          (Inl IndexError, emit (Search (sample_query env v)) w)) \<and>
   (numFound (solr_search env (trace w) query) \<noteq> 0 \<and> stdin w = ''s'' # rest \<and>
    docs (solr_search env (trace w) query) = [] \<longrightarrow>
      check_query env query w =
        (Inl ValueError,
         w\<lparr>trace := trace w @
              [Search query, Input check_prompt (numFound (solr_search env (trace w) query))],
            stdin := rest\<rparr>))"
proof (intro conjI)
  show "numFound (solr_search env (trace w) query) \<noteq> 0 \<and> stdin w = ''s'' # rest \<and>
    docs (solr_search env (trace w) query) = [] \<longrightarrow>
      check_query env query w =
        (Inl ValueError,
         w\<lparr>trace := trace w @
              [Search query, Input check_prompt (numFound (solr_search env (trace w) query))],
            stdin := rest\<rparr>)"
    using check_query_first_valid [of env w query "[]" "''s''" rest]
    by (simp add: Let_def sample_branch_def)
qed (auto simp: sample_branch_def Let_def split: list.splits option.splits)

theorem sample_branch_partial_witness:
  "check_query (tile_env (scripted [count_only]) []) star_query (operator [''s'', ''n'']) =
     (Inl ValueError, \<lparr>trace = [Search star_query, Input check_prompt 1], stdin = [''n'']\<rparr>) \<and>
   sample_branch (tile_env (scripted [count_only]) []) count_only (operator []) =
     (Inl ValueError, operator []) \<and>
   sample_branch (tile_env (scripted [one_hit]) []) one_hit
       \<lparr>trace = [Search star_query], stdin = []\<rparr> =
     (Inl IndexError,
      \<lparr>trace = [Search star_query, Search (SearchOptions\<lparr>param_q :=
           [''id:0a0a0a0a-0000-4000-8000-00000000000a'']\<rparr>)], stdin = []\<rparr>) \<and>
   (\<exists>w1. sample_branch (tile_env (scripted [one_hit]) []) one_hit (operator []) = (Inr (), w1))"
proof -
  let ?e0 = "tile_env (scripted [count_only]) []"
  let ?e1 = "tile_env (scripted [one_hit]) []"
  let ?w1 = "\<lparr>trace = [Search star_query], stdin = []\<rparr>"
  have c0: "solr_search ?e0 (trace (operator ls)) star_query = count_only" for ls
    by (simp add: tile_env_def scripted_def searches_def operator_def)
  from sample_branch_partial [of count_only ?e0 "operator [''s'', ''n'']" star_query "[''n'']"]
  have a: "check_query ?e0 star_query (operator [''s'', ''n'']) =
     (Inl ValueError, \<lparr>trace = [Search star_query, Input check_prompt 1], stdin = [''n'']\<rparr>)"
    by (simp add: c0) (simp add: count_only_def operator_def)
  from sample_branch_partial [of count_only ?e0 "operator []" star_query "[]"]
  have b: "sample_branch ?e0 count_only (operator []) = (Inl ValueError, operator [])"
    by (simp add: count_only_def)
  have pick: "map_of (docs one_hit ! (sample_pick ?e1 h (length (docs one_hit))
      mod length (docs one_hit))) (SOLR_UNIQUE_KEY ?e1) = Some ''0a0a0a0a-0000-4000-8000-00000000000a''" for h
    by (simp add: one_hit_def tile_env_def tile_a_def)
  have q: "sample_query ?e1 ''0a0a0a0a-0000-4000-8000-00000000000a'' =
      SearchOptions\<lparr>param_q := [''id:0a0a0a0a-0000-4000-8000-00000000000a'']\<rparr>"
    by (simp add: sample_query_def tile_env_def)
  have d1: "docs (solr_search ?e1 (trace ?w1) se) = []" for se
    by (simp add: tile_env_def scripted_def searches_def no_response_def)
  have d0: "docs (solr_search ?e1 (trace (operator [])) se) \<noteq> []" for se
    by (simp add: tile_env_def scripted_def searches_def operator_def one_hit_def)
  have ne: "docs one_hit \<noteq> []" by (simp add: one_hit_def)
  from sample_branch_partial [of one_hit ?e1 ?w1 star_query "[]"] pick [of "trace ?w1"] d1 ne
  have c: "sample_branch ?e1 one_hit ?w1 =
     (Inl IndexError,
      \<lparr>trace = [Search star_query, Search (SearchOptions\<lparr>param_q :=
           [''id:0a0a0a0a-0000-4000-8000-00000000000a'']\<rparr>)], stdin = []\<rparr>)"
    by (simp add: q emit_def)
  from sample_branch_partial [of one_hit ?e1 "operator []" star_query "[]"]
    pick [of "trace (operator [])"] d0 ne
  have d: "\<exists>w1. sample_branch ?e1 one_hit (operator []) = (Inr (), w1)"
    by simp
  from a b c d show ?thesis by blast
qed

end
